theory Spec2Isabelle
  imports Complex_Main "HOL-Library.Word"
begin

section \<open>Data of the listener script\<close>

text \<open>
  The script \<^verbatim>\<open>listen-email.py\<close> reads frames from a recorder, asks the wake-word
  detector about each frame, records for \<^verbatim>\<open>RECORDING_DURATION_SECONDS\<close> after a
  detection, writes the recorded frames to a WAV file, mails the file and deletes it
  when the mail went out.

  A frame is what \<^verbatim>\<open>recorder.read()\<close> returns: a Python list of integers.
  Files hold bytes; the storage is a map from path names to file contents.
  Clock readings (\<^verbatim>\<open>time.time()\<close>) are modelled by the real numbers they denote.
\<close>

type_synonym frame = "int list"
type_synonym byte = "8 word"
type_synonym storage = "string \<rightharpoonup> byte list"

text \<open>The module-level configuration that the main loop reads (lines 20-21), and
  \<^verbatim>\<open>porcupine.sample_rate\<close> (line 145).\<close>

record config =
  TEMP_AUDIO_DIR :: string
  RECORDING_DURATION_SECONDS :: int
  sample_rate :: int

text \<open>The calls made on the SMTP connection (lines 62-67), in the order of the source,
  and the exceptions the source distinguishes (lines 70-77).\<close>

datatype smtp_step = Connect | StartTLS | Login | Sendmail | Quit

datatype smtp_exn = SMTPAuthenticationError | SMTPServerDisconnected | OtherException

text \<open>One constructor per \<^verbatim>\<open>print\<close> statement of the function and of the loop.\<close>

datatype msg =
    AttachmentNotFound string
  | ErrorAttaching
  | SentSuccessfully string
  | AuthenticationError
  | ServerDisconnected
  | ErrorSending
  | DetectedWakeWord
  | DurationReached
  | AudioSaved string
  | AttemptingToSend
  | FileDeleted string
  | FileNotDeleted string
  | ErrorSavingOrSending
  | NoAudioRecorded
  | ListeningForWakeWord

text \<open>
  The effects of the program on the outside, in the order they happen:
  a \<^verbatim>\<open>print\<close>, the WAV writer being run on the buffer (lines 142-146, with the path,
  the sample rate and the frames), the attachment being opened for reading (line 48),
  a call on the SMTP connection, and \<^verbatim>\<open>os.remove\<close> (line 155).
\<close>

datatype event =
    Print msg
  | WaveWrite string int "frame list"
  | OpenRead string
  | Smtp smtp_step
  | Remove string

text \<open>
  What the outside world does while one session is saved and sent:
  the string \<^verbatim>\<open>strftime\<close> returns (line 137), whether opening the WAV file for
  writing raises, whether writing it raises, what a failed write leaves in the file it
  had opened, whether reading the attachment raises, for each SMTP call the
  exception it raises, if any, and whether \<^verbatim>\<open>os.remove\<close> raises on the file it is
  asked to delete (a directory without write permission, a file that is locked).
\<close>

record session_env =
  timestamp :: string
  open_fails :: bool
  write_fails :: bool
  leftover :: "byte list"
  read_fails :: bool
  relay :: "smtp_step \<Rightarrow> smtp_exn option"
  remove_fails :: bool

text \<open>
  The inputs of one iteration of the \<^verbatim>\<open>while True\<close> loop: the frame returned by
  \<^verbatim>\<open>recorder.read()\<close> and the index returned by \<^verbatim>\<open>porcupine.process(pcm)\<close>
  (\<open>None\<close> when the call raises), the clock at line 123 and at line 128, and the
  world of the session that this iteration may complete.
\<close>

record tick =
  pcm_read :: "frame option"
  keyword :: "int option"
  clock_start :: real
  clock_now :: real
  world :: session_env

text \<open>The three variables of the loop (lines 107-109), the storage and the effects so far.\<close>

record state =
  recording :: bool
  audio_frames :: "frame list"
  recording_start_time :: "real option"
  files :: storage
  trace :: "event list"

section \<open>Writing the WAV file\<close>

text \<open>
  \<^verbatim>\<open>struct.pack('h' * len(frame), *frame)\<close>: two bytes per sample, two's complement,
  low byte first; \<^verbatim>\<open>struct.error\<close> (here \<open>None\<close>) for a sample outside the 16-bit
  range. (On a big-endian host \<^verbatim>\<open>'h'\<close> packs the high byte first and the
  \<^verbatim>\<open>wave\<close> module swaps the bytes back before writing: the file is the same.)
\<close>

definition pack_h :: "int \<Rightarrow> byte list option" where
  "pack_h x =
     (if - 32768 \<le> x \<and> x \<le> 32767 then Some [word_of_int x, word_of_int (x div 256)]
      else None)"

fun pack_frame :: "frame \<Rightarrow> byte list option" where
  "pack_frame [] = Some []"
| "pack_frame (x # xs) =
     (case pack_h x of
        None \<Rightarrow> None
      | Some b \<Rightarrow> (case pack_frame xs of None \<Rightarrow> None | Some bs \<Rightarrow> Some (b @ bs)))"

text \<open>\<^verbatim>\<open>b''.join(... for frame in audio_frames)\<close>\<close>

fun join_frames :: "frame list \<Rightarrow> byte list option" where
  "join_frames [] = Some []"
| "join_frames (f # fs) =
     (case pack_frame f of
        None \<Rightarrow> None
      | Some b \<Rightarrow> (case join_frames fs of None \<Rightarrow> None | Some bs \<Rightarrow> Some (b @ bs)))"

text \<open>\<^verbatim>\<open>struct.pack('<L', n)\<close> and \<^verbatim>\<open>struct.pack('<H', n)\<close>, which the
  \<^verbatim>\<open>wave\<close> module uses for the header.\<close>

definition pack_L :: "int \<Rightarrow> byte list option" where
  "pack_L n =
     (if 0 \<le> n \<and> n < 2 ^ 32
      then Some [word_of_int n, word_of_int (n div 2 ^ 8), word_of_int (n div 2 ^ 16),
                 word_of_int (n div 2 ^ 24)]
      else None)"

definition pack_H :: "int \<Rightarrow> byte list option" where
  "pack_H n =
     (if 0 \<le> n \<and> n < 2 ^ 16 then Some [word_of_int n, word_of_int (n div 2 ^ 8)]
      else None)"

definition ascii :: "string \<Rightarrow> byte list" where
  "ascii s = map of_char s"

text \<open>
  Modelled from the spec: the container encoder is Python's \<^verbatim>\<open>wave\<close> module, which
  is not part of the repository. Section 6 of the specification fixes the format:
  single-channel PCM, 16-bit little-endian samples, the standard RIFF/WAVE chunk layout.
  \<open>wave_bytes\<close> is the file \<^verbatim>\<open>Wave_write\<close> produces for \<^verbatim>\<open>setnchannels\<close>,
  \<^verbatim>\<open>setsampwidth\<close>, \<^verbatim>\<open>setframerate\<close> and one \<^verbatim>\<open>writeframes(data)\<close>:
  the 44-byte header and the data. \<open>None\<close> stands for the exception the module
  raises: a channel count, sample width or frame rate it refuses, or a header field that
  does not fit its 16 or 32 bits.
\<close>

definition wave_bytes :: "int \<Rightarrow> int \<Rightarrow> int \<Rightarrow> byte list \<Rightarrow> byte list option" where
  "wave_bytes nchannels sampwidth framerate data =
     (if nchannels < 1 \<or> sampwidth < 1 \<or> sampwidth > 4 \<or> framerate \<le> 0 then None
      else
        let nframes = int (length data) div (nchannels * sampwidth);
            datalength = nframes * nchannels * sampwidth
        in case (pack_L (36 + datalength), pack_H nchannels, pack_L framerate,
                 pack_L (nchannels * framerate * sampwidth), pack_H (nchannels * sampwidth),
                 pack_H (sampwidth * 8), pack_L datalength) of
             (Some riff_len, Some nch, Some rate, Some byte_rate, Some block_align,
              Some bits, Some data_len) \<Rightarrow>
               Some (ascii ''RIFF'' @ riff_len @ ascii ''WAVE'' @ ascii ''fmt '' @
                     [16, 0, 0, 0] @ [1, 0] @ nch @ rate @ byte_rate @ block_align @ bits @
                     ascii ''data'' @ data_len @ data)
           | _ \<Rightarrow> None)"

text \<open>
  Lines 142-146. The result says whether the block ended without an exception.
  When \<^verbatim>\<open>wave.open\<close> raises, the storage is untouched. After it, the file exists;
  when packing or writing raises, the file is left with whatever had reached it.
\<close>

definition write_wave ::
  "session_env \<Rightarrow> string \<Rightarrow> int \<Rightarrow> frame list \<Rightarrow> storage \<Rightarrow> bool \<times> storage" where
  "write_wave w path rate frames fs =
     (if open_fails w then (False, fs)
      else
        case join_frames frames of
          None \<Rightarrow> (False, fs(path \<mapsto> leftover w))
        | Some data \<Rightarrow>
            (case wave_bytes 1 2 rate data of
               None \<Rightarrow> (False, fs(path \<mapsto> leftover w))
             | Some bs \<Rightarrow>
                 if write_fails w then (False, fs(path \<mapsto> leftover w))
                 else (True, fs(path \<mapsto> bs))))"

section \<open>Sending the mail\<close>

text \<open>The calls on the connection, in order, up to the first that raises.\<close>

fun smtp_session ::
  "(smtp_step \<Rightarrow> smtp_exn option) \<Rightarrow> smtp_step list \<Rightarrow> event list \<times> smtp_exn option" where
  "smtp_session net [] = ([], None)"
| "smtp_session net (s # ss) =
     (case net s of
        Some e \<Rightarrow> ([Smtp s], Some e)
      | None \<Rightarrow> (case smtp_session net ss of (evs, r) \<Rightarrow> (Smtp s # evs, r)))"

text \<open>
  \<^verbatim>\<open>send_audio_email\<close> (lines 33-79): the value it returns and the effects it has.
  The sender, the password and the receiver are passed on to the relay and decide
  nothing in the function itself.
\<close>

definition send_audio_email :: "session_env \<Rightarrow> storage \<Rightarrow> string \<Rightarrow> bool \<times> event list" where
  "send_audio_email w fs file_path =
     (case fs file_path of
        None \<Rightarrow> (False, [OpenRead file_path, Print (AttachmentNotFound file_path)])
      | Some payload \<Rightarrow>
          if read_fails w then (False, [OpenRead file_path, Print ErrorAttaching])
          else
            (case smtp_session (relay w) [Connect, StartTLS, Login, Sendmail, Quit] of
               (evs, None) \<Rightarrow>
                 (True, OpenRead file_path # evs @ [Print (SentSuccessfully file_path)])
             | (evs, Some SMTPAuthenticationError) \<Rightarrow>
                 (False, OpenRead file_path # evs @ [Print AuthenticationError])
             | (evs, Some SMTPServerDisconnected) \<Rightarrow>
                 (False, OpenRead file_path # evs @ [Print ServerDisconnected])
             | (evs, Some OtherException) \<Rightarrow>
                 (False, OpenRead file_path # evs @ [Print ErrorSending])))"

section \<open>The main loop\<close>

text \<open>\<^verbatim>\<open>os.path.join\<close> of a directory and a file name that does not start with a slash.\<close>

definition path_join :: "string \<Rightarrow> string \<Rightarrow> string" where
  "path_join dir name =
     (if dir = [] then name
      else if last dir = CHR ''/'' then dir @ name
      else dir @ ''/'' @ name)"

definition temp_filename :: "config \<Rightarrow> session_env \<Rightarrow> string" where
  "temp_filename cfg w =
     path_join (TEMP_AUDIO_DIR cfg) (''recording_'' @ timestamp w @ ''.wav'')"

definition say :: "event list \<Rightarrow> state \<Rightarrow> state" where
  "say evs st = st\<lparr>trace := trace st @ evs\<rparr>"

text \<open>
  Lines 137-163, the body of \<^verbatim>\<open>if audio_frames:\<close>. The \<^verbatim>\<open>try\<close> block saves and
  sends; an exception in it is caught at line 160; \<^verbatim>\<open>finally\<close> empties the buffer.
  \<^verbatim>\<open>os.remove\<close> (line 155) raises when the file is not there and when the world
  refuses the removal; line 160 catches that too, and the file stays.
\<close>

definition save_and_send :: "config \<Rightarrow> session_env \<Rightarrow> state \<Rightarrow> state" where
  "save_and_send cfg w st =
     (let name = temp_filename cfg w;
          st1 = say [WaveWrite name (sample_rate cfg) (audio_frames st)] st;
          st2 =
            (case write_wave w name (sample_rate cfg) (audio_frames st) (files st) of
               (False, fs1) \<Rightarrow> say [Print ErrorSavingOrSending] (st1\<lparr>files := fs1\<rparr>)
             | (True, fs1) \<Rightarrow>
                 (case send_audio_email w fs1 name of
                    (email_sent, evs) \<Rightarrow>
                      let st3 = say ([Print (AudioSaved name), Print AttemptingToSend] @ evs)
                                  (st1\<lparr>files := fs1\<rparr>)
                      in if email_sent then
                           (case fs1 name of
                              None \<Rightarrow> say [Remove name, Print ErrorSavingOrSending] st3
                            | Some old \<Rightarrow>
                                if remove_fails w
                                then say [Remove name, Print ErrorSavingOrSending] st3
                                else say [Remove name, Print (FileDeleted name)]
                                       (st3\<lparr>files := fs1(name := None)\<rparr>))
                         else say [Print (FileNotDeleted name)] st3))
      in st2\<lparr>audio_frames := []\<rparr>)"

text \<open>The exceptions that leave the loop: nothing in the loop body catches them.\<close>

datatype loop_exit = ReadRaised | ProcessRaised | TypeError

text \<open>
  One iteration of the loop, lines 115-168. Subtracting \<^verbatim>\<open>None\<close> from the clock
  (line 129 with no start time) is a \<^verbatim>\<open>TypeError\<close>.
\<close>

definition step :: "config \<Rightarrow> tick \<Rightarrow> state \<Rightarrow> loop_exit + state" where
  "step cfg t st =
     (case pcm_read t of
        None \<Rightarrow> Inl ReadRaised
      | Some pcm \<Rightarrow>
          (case keyword t of
             None \<Rightarrow> Inl ProcessRaised
           | Some keyword_index \<Rightarrow>
               let st1 =
                     (if keyword_index = 0 \<and> \<not> recording st
                      then (say [Print DetectedWakeWord] st)
                             \<lparr>recording := True, audio_frames := [],
                              recording_start_time := Some (clock_start t)\<rparr>
                      else st)
               in if recording st1 then
                    let st2 = st1\<lparr>audio_frames := audio_frames st1 @ [pcm]\<rparr>
                    in case recording_start_time st2 of
                         None \<Rightarrow> Inl TypeError
                       | Some start \<Rightarrow>
                           if clock_now t - start \<ge> of_int (RECORDING_DURATION_SECONDS cfg)
                           then
                             let st3 = (say [Print DurationReached] st2)
                                         \<lparr>recording := False, recording_start_time := None\<rparr>;
                                 st4 = (if audio_frames st3 \<noteq> []
                                        then save_and_send cfg (world t) st3
                                        else say [Print NoAudioRecorded] st3)
                             in Inr (say [Print ListeningForWakeWord] st4)
                           else Inr st2
                  else Inr st1))"

text \<open>The loop over the iterations that happen before the process is interrupted.\<close>

fun run :: "config \<Rightarrow> state \<Rightarrow> tick list \<Rightarrow> loop_exit + state" where
  "run cfg st [] = Inr st"
| "run cfg st (t # ts) = (case step cfg t st of Inl e \<Rightarrow> Inl e | Inr st' \<Rightarrow> run cfg st' ts)"

text \<open>Lines 107-111: the state in which the loop is entered, on a given storage.\<close>

definition initial :: "storage \<Rightarrow> state" where
  "initial fs =
     \<lparr>recording = False, audio_frames = [], recording_start_time = None, files = fs,
      trace = [Print ListeningForWakeWord]\<rparr>"

section \<open>Reading the WAV file back\<close>






section \<open>Vocabulary of the properties\<close>

text \<open>An iteration in which the recorder returns a frame and the detector returns
  an index other than 0.\<close>

definition quiet :: "tick \<Rightarrow> bool" where
  "quiet t = (pcm_read t \<noteq> None \<and> (case keyword t of None \<Rightarrow> False | Some k \<Rightarrow> k \<noteq> 0))"

text \<open>An iteration in which both calls return.\<close>

definition delivers :: "tick \<Rightarrow> bool" where
  "delivers t = (pcm_read t \<noteq> None \<and> keyword t \<noteq> None)"

text \<open>The test of line 131 for a window started at \<open>start\<close>.\<close>

definition duration_reached :: "config \<Rightarrow> real \<Rightarrow> tick \<Rightarrow> bool" where
  "duration_reached cfg start t =
     (clock_now t - start \<ge> of_int (RECORDING_DURATION_SECONDS cfg))"

text \<open>The frames read in a sequence of iterations, in order.\<close>

definition frames_of :: "tick list \<Rightarrow> frame list" where
  "frames_of ts = List.map_filter pcm_read ts"

text \<open>The buffers handed to the WAV writer, oldest first.\<close>

fun persisted :: "event list \<Rightarrow> frame list list" where
  "persisted [] = []"
| "persisted (WaveWrite p r fr # evs) = fr # persisted evs"
| "persisted (e # evs) = persisted evs"

text \<open>Events of the delivery: the attachment being read and the calls to the relay.\<close>

fun is_delivery :: "event \<Rightarrow> bool" where
  "is_delivery (OpenRead p) = True"
| "is_delivery (Smtp s) = True"
| "is_delivery e = False"

fun is_network :: "event \<Rightarrow> bool" where
  "is_network (Smtp s) = True"
| "is_network e = False"

text \<open>What holds of the loop variables between iterations: a recording has its start
  time, and the buffer is empty while nothing is recorded.\<close>

definition consistent :: "state \<Rightarrow> bool" where
  "consistent st =
     ((if recording st then recording_start_time st \<noteq> None else audio_frames st = []))"

text \<open>What an iteration with the new events \<open>evs\<close> owes to a session whose WAV file
  could not be written: no delivery, and the loop variables back at rest. The buffer
  the iteration handed to the writer is the one \<open>persisted\<close> finds in its events.\<close>

definition contained :: "config \<Rightarrow> tick \<Rightarrow> state \<Rightarrow> state \<Rightarrow> event list \<Rightarrow> bool" where
  "contained cfg t st st' evs =
     (\<forall>buf. persisted evs = [buf] \<and>
         \<not> fst (write_wave (world t) (temp_filename cfg (world t)) (sample_rate cfg) buf
                (files st)) \<longrightarrow>
         \<not> recording st' \<and> audio_frames st' = [] \<and> (\<forall>e\<in>set evs. \<not> is_delivery e))"

section \<open>Sample inputs\<close>

text \<open>The defaults of the script, with the detector's sample rate.\<close>

definition cfg0 :: config where
  "cfg0 = \<lparr>TEMP_AUDIO_DIR = ''temp_recordings'', RECORDING_DURATION_SECONDS = 15,
           sample_rate = 16000\<rparr>"

text \<open>A world in which nothing fails, and one whose relay refuses the connection.\<close>

definition calm :: "string \<Rightarrow> session_env" where
  "calm ts =
     \<lparr>timestamp = ts, open_fails = False, write_fails = False, leftover = [],
      read_fails = False, relay = (\<lambda>s. None), remove_fails = False\<rparr>"

definition offline :: "string \<Rightarrow> session_env" where
  "offline ts = (calm ts)\<lparr>relay := (\<lambda>s. if s = Connect then Some OtherException else None)\<rparr>"

text \<open>An iteration at a given time with a given detector result and frame.\<close>

definition tick_at :: "real \<Rightarrow> int \<Rightarrow> frame \<Rightarrow> session_env \<Rightarrow> tick" where
  "tick_at now k f w =
     \<lparr>pcm_read = Some f, keyword = Some k, clock_start = now, clock_now = now, world = w\<rparr>"

text \<open>A world in which the mail goes out and the file cannot be removed afterwards.\<close>

definition stuck :: "string \<Rightarrow> session_env" where
  "stuck ts = (calm ts)\<lparr>remove_fails := True\<rparr>"

text \<open>A world whose storage directory cannot be written.\<close>

definition readonly :: "string \<Rightarrow> session_env" where
  "readonly ts = (calm ts)\<lparr>open_fails := True\<rparr>"

text \<open>A local time that occurs twice in the night in which the clocks are set back,
  and the name of the file written at that time.\<close>

definition ts0 :: string where
  "ts0 = ''20261101_013000''"

definition p0 :: string where
  "p0 = ''temp_recordings/recording_20261101_013000.wav''"

text \<open>A state in the middle of a window, and a state about to save two frames.\<close>

definition rec0 :: state where
  "rec0 = (initial Map.empty)\<lparr>recording := True, audio_frames := [[1]],
            recording_start_time := Some 0\<rparr>"

definition st12 :: state where
  "st12 = (initial Map.empty)\<lparr>audio_frames := [[1], [2]]\<rparr>"

text \<open>The WAV files of the frames \<open>[[1], [2]]\<close> and \<open>[[3], [4]]\<close> at 16000 Hz.\<close>

definition wav12 :: "byte list" where
  "wav12 = [82, 73, 70, 70, 40, 0, 0, 0, 87, 65, 86, 69, 102, 109, 116, 32, 16, 0, 0, 0, 1, 0, 1, 0,
            128, 62, 0, 0, 0, 125, 0, 0, 2, 0, 16, 0, 100, 97, 116, 97, 4, 0, 0, 0, 1, 0, 2, 0]"

definition wav34 :: "byte list" where
  "wav34 = [82, 73, 70, 70, 40, 0, 0, 0, 87, 65, 86, 69, 102, 109, 116, 32, 16, 0, 0, 0, 1, 0, 1, 0,
            128, 62, 0, 0, 0, 125, 0, 0, 2, 0, 16, 0, 100, 97, 116, 97, 4, 0, 0, 0, 3, 0, 4, 0]"

section \<open>Facts about one iteration\<close>

lemma step_quiet_idle: "quiet t \<Longrightarrow> \<not> recording st \<Longrightarrow> step cfg t st = Inr st"
  by (auto simp: quiet_def step_def split: option.splits)

lemma run_quiet_idle:
  "\<forall>t\<in>set ts. quiet t \<Longrightarrow> \<not> recording st \<Longrightarrow> run cfg st ts = Inr st"
  by (induction ts) (simp_all add: step_quiet_idle)

lemma say_simps [simp]:
  "recording (say evs st) = recording st"
  "audio_frames (say evs st) = audio_frames st"
  "recording_start_time (say evs st) = recording_start_time st"
  "files (say evs st) = files st"
  "trace (say evs st) = trace st @ evs"
  by (simp_all add: say_def)

lemma persisted_append: "persisted (xs @ ys) = persisted xs @ persisted ys"
  by (induction xs rule: persisted.induct) simp_all

lemma smtp_session_events:
  "smtp_session net ss = (evs, r) \<Longrightarrow> \<forall>e\<in>set evs. \<exists>s. e = Smtp s"
  by (induction ss arbitrary: evs r) (auto split: option.splits prod.splits)

lemma smtp_session_persisted: "smtp_session net ss = (evs, r) \<Longrightarrow> persisted evs = []"
  by (induction ss arbitrary: evs r) (auto split: option.splits prod.splits)

lemma smtp_session_no_print: "smtp_session net ss = (evs, r) \<Longrightarrow> Print m \<notin> set evs"
  by (auto dest: smtp_session_events)

lemma send_persisted: "send_audio_email w fs p = (b, evs) \<Longrightarrow> persisted evs = []"
  by (auto simp: send_audio_email_def persisted_append smtp_session_persisted
      split: option.splits prod.splits smtp_exn.splits if_splits)

lemma send_no_skip: "send_audio_email w fs p = (b, evs) \<Longrightarrow> Print NoAudioRecorded \<notin> set evs"
  by (auto simp: send_audio_email_def smtp_session_no_print
      split: option.splits prod.splits smtp_exn.splits if_splits)

lemma send_no_remove: "send_audio_email w fs p = (b, evs) \<Longrightarrow> Remove q \<notin> set evs"
  by (auto simp: send_audio_email_def split: option.splits prod.splits smtp_exn.splits if_splits
      dest: smtp_session_events)

lemma save_and_send_idle [simp]:
  "recording (save_and_send cfg w st) = recording st"
  "audio_frames (save_and_send cfg w st) = []"
  "recording_start_time (save_and_send cfg w st) = recording_start_time st"
  by (simp_all add: save_and_send_def Let_def split: prod.split bool.split option.split)

lemma save_and_send_trace:
  "\<exists>evs. trace (save_and_send cfg w st) = trace st @ evs \<and> persisted evs = [audio_frames st] \<and>
         Print NoAudioRecorded \<notin> set evs"
  by (simp add: save_and_send_def Let_def persisted_append send_persisted send_no_skip
      split: prod.split bool.split option.split)


lemma save_and_send_files:
  assumes "write_wave w (temp_filename cfg w) (sample_rate cfg) (audio_frames st) (files st) = (True, fs1)"
  shows "files (save_and_send cfg w st) =
           (if fst (send_audio_email w fs1 (temp_filename cfg w)) \<and> \<not> remove_fails w
            then fs1((temp_filename cfg w) := None) else fs1)"
    and "fs1 (temp_filename cfg w) \<noteq> None"
proof -
  show ex: "fs1 (temp_filename cfg w) \<noteq> None"
    using assms by (auto simp: write_wave_def split: if_splits option.splits)
  obtain sent evs where s: "send_audio_email w fs1 (temp_filename cfg w) = (sent, evs)"
    by (cases "send_audio_email w fs1 (temp_filename cfg w)")
  show "files (save_and_send cfg w st) =
           (if fst (send_audio_email w fs1 (temp_filename cfg w)) \<and> \<not> remove_fails w
            then fs1((temp_filename cfg w) := None) else fs1)"
    using assms ex s by (cases sent) (auto simp: save_and_send_def Let_def)
qed

lemma save_and_send_write_fails:
  assumes "\<not> fst (write_wave w (temp_filename cfg w) (sample_rate cfg) (audio_frames st) (files st))"
  shows "trace (save_and_send cfg w st) =
     trace st @ [WaveWrite (temp_filename cfg w) (sample_rate cfg) (audio_frames st),
                 Print ErrorSavingOrSending]"
proof (cases "write_wave w (temp_filename cfg w) (sample_rate cfg) (audio_frames st) (files st)")
  case (Pair ok fs1)
  with assms have "\<not> ok" by simp
  with Pair show ?thesis by (simp add: save_and_send_def Let_def)
qed

lemma run_append:
  "run cfg st (xs @ ys) = (case run cfg st xs of Inl e \<Rightarrow> Inl e | Inr st' \<Rightarrow> run cfg st' ys)"
  by (induction xs arbitrary: st) (simp_all split: sum.split)

lemma step_consistent:
  "consistent st \<Longrightarrow> step cfg t st = Inr st' \<Longrightarrow> consistent st'"
  by (auto simp: step_def consistent_def Let_def split: option.splits if_splits)

lemma run_consistent:
  "consistent st \<Longrightarrow> run cfg st ts = Inr st' \<Longrightarrow> consistent st'"
  by (induction ts arbitrary: st) (auto split: sum.splits dest: step_consistent)

lemma initial_consistent: "consistent (initial fs)"
  by (simp add: consistent_def initial_def)

lemma step_continues:
  "consistent st \<Longrightarrow> delivers t \<Longrightarrow> \<exists>st'. step cfg t st = Inr st'"
  by (auto simp: step_def consistent_def delivers_def Let_def split: option.splits if_splits)

lemma run_continues:
  "consistent st \<Longrightarrow> \<forall>t\<in>set ts. delivers t \<Longrightarrow> \<exists>st'. run cfg st ts = Inr st' \<and> consistent st'"
proof (induction ts arbitrary: st)
  case Nil
  then show ?case by simp
next
  case (Cons t ts)
  then obtain st1 where st1: "step cfg t st = Inr st1"
    using step_continues [of st t cfg] by auto
  then have "consistent st1" using Cons.prems(1) step_consistent by blast
  then show ?case using Cons.IH [of st1] Cons.prems(2) st1 by simp
qed

lemma step_recording:
  assumes "recording st" "recording_start_time st = Some s" "pcm_read t = Some f"
    "keyword t = Some k"
  shows "step cfg t st =
    (if duration_reached cfg s t
     then Inr (say [Print ListeningForWakeWord] (save_and_send cfg (world t)
            ((say [Print DurationReached] (st\<lparr>audio_frames := audio_frames st @ [f]\<rparr>))
               \<lparr>recording := False, recording_start_time := None\<rparr>)))
     else Inr (st\<lparr>audio_frames := audio_frames st @ [f]\<rparr>))"
  using assms by (simp add: step_def Let_def duration_reached_def)

lemma step_recording_last:
  assumes "recording st" "recording_start_time st = Some s" "pcm_read t = Some f"
    "keyword t = Some k" "duration_reached cfg s t"
  shows "\<exists>st' evs. step cfg t st = Inr st' \<and> \<not> recording st' \<and> audio_frames st' = [] \<and>
           files st' = files (save_and_send cfg (world t)
              (st\<lparr>audio_frames := audio_frames st @ [f], recording := False, recording_start_time := None\<rparr>)) \<and>
           trace st' = trace st @ evs \<and> persisted evs = [audio_frames st @ [f]] \<and>
           Print NoAudioRecorded \<notin> set evs"
proof -
  let ?st3 = "(say [Print DurationReached] (st\<lparr>audio_frames := audio_frames st @ [f]\<rparr>))
                \<lparr>recording := False, recording_start_time := None\<rparr>"
  obtain evs where evs: "trace (save_and_send cfg (world t) ?st3) = trace ?st3 @ evs"
    "persisted evs = [audio_frames ?st3]" "Print NoAudioRecorded \<notin> set evs"
    using save_and_send_trace by blast
  have "step cfg t st = Inr (say [Print ListeningForWakeWord] (save_and_send cfg (world t) ?st3))"
    using assms by (simp add: step_def Let_def duration_reached_def)
  moreover have "files (save_and_send cfg (world t) ?st3) = files (save_and_send cfg (world t)
              (st\<lparr>audio_frames := audio_frames st @ [f], recording := False, recording_start_time := None\<rparr>))"
    by (simp add: save_and_send_def say_def Let_def split: prod.split bool.split option.split)
  ultimately show ?thesis using evs
    by (simp add: persisted_append)
qed

lemma step_recording_more:
  assumes "recording st" "recording_start_time st = Some s" "pcm_read t = Some f"
    "keyword t = Some k" "\<not> duration_reached cfg s t"
  shows "step cfg t st = Inr (st\<lparr>audio_frames := audio_frames st @ [f]\<rparr>)"
  using assms by (simp add: step_def Let_def duration_reached_def)

lemma step_trigger:
  assumes "\<not> recording st" "keyword t = Some 0"
  shows "step cfg t st =
     step cfg t ((say [Print DetectedWakeWord] st)
        \<lparr>recording := True, audio_frames := [], recording_start_time := Some (clock_start t)\<rparr>)"
  using assms by (simp add: step_def Let_def split: option.split)

lemma frames_of_Cons:
  "frames_of (t # ts) = (case pcm_read t of None \<Rightarrow> frames_of ts | Some f \<Rightarrow> f # frames_of ts)"
  by (simp add: frames_of_def List.map_filter_simps split: option.split)

lemma frames_of_Nil: "frames_of [] = []"
  by (simp add: frames_of_def List.map_filter_simps)


section \<open>The capture state machine\<close>

lemma run_window:
  assumes "recording st" "recording_start_time st = Some s"
    and "\<forall>t\<in>set (t0 # w). delivers t"
    and "\<forall>t\<in>set (butlast (t0 # w)). \<not> duration_reached cfg s t"
    and "duration_reached cfg s (last (t0 # w))"
  shows "\<exists>st' evs. run cfg st (t0 # w) = Inr st' \<and> \<not> recording st' \<and> audio_frames st' = [] \<and>
           trace st' = trace st @ evs \<and> persisted evs = [audio_frames st @ frames_of (t0 # w)] \<and>
           Print NoAudioRecorded \<notin> set evs"
  using assms
proof (induction w arbitrary: st t0)
  case Nil
  then obtain f k where fk: "pcm_read t0 = Some f" "keyword t0 = Some k"
    by (auto simp: delivers_def)
  from Nil have "duration_reached cfg s t0" by simp
  from step_recording_last [OF Nil(1) Nil(2) fk this]
  show ?case using fk by (auto simp: frames_of_Cons frames_of_Nil)
next
  case (Cons t1 w)
  then obtain f k where fk: "pcm_read t0 = Some f" "keyword t0 = Some k"
    by (auto simp: delivers_def)
  from Cons.prems have early: "\<not> duration_reached cfg s t0" by simp
  let ?st1 = "st\<lparr>audio_frames := audio_frames st @ [f]\<rparr>"
  have st1: "step cfg t0 st = Inr ?st1"
    by (rule step_recording_more [OF Cons.prems(1) Cons.prems(2) fk early])
  have "\<exists>st' evs. run cfg ?st1 (t1 # w) = Inr st' \<and> \<not> recording st' \<and> audio_frames st' = [] \<and>
           trace st' = trace ?st1 @ evs \<and> persisted evs = [audio_frames ?st1 @ frames_of (t1 # w)] \<and>
           Print NoAudioRecorded \<notin> set evs"
  proof (rule Cons.IH)
    show "recording ?st1" using Cons.prems(1) by simp
    show "recording_start_time ?st1 = Some s" using Cons.prems(2) by simp
    show "\<forall>t\<in>set (t1 # w). delivers t" using Cons.prems(3) by simp
    show "\<forall>t\<in>set (butlast (t1 # w)). \<not> duration_reached cfg s t" using Cons.prems(4) by simp
    show "duration_reached cfg s (last (t1 # w))" using Cons.prems(5) by simp
  qed
  then show ?case using st1 fk by (simp add: frames_of_Cons)
qed

text \<open>
  Claim C1. When the frames before the trigger carry no match, one frame matches while the
  loop is idle, the duration is first reached at the last frame of the window, and the
  frames after the window carry no match, then the run hands exactly one buffer to the WAV
  writer: the frames from the triggering one to that last one, each once and in the order
  they were read. The frames inside the window may carry any detector result.
\<close>

theorem single_trigger_buffer:
  assumes pre: "\<forall>t\<in>set pre. quiet t"
    and trig: "keyword t0 = Some 0"
    and del: "\<forall>t\<in>set (t0 # w). delivers t"
    and early: "\<forall>t\<in>set (butlast (t0 # w)). \<not> duration_reached cfg (clock_start t0) t"
    and final: "duration_reached cfg (clock_start t0) (last (t0 # w))"
    and post: "\<forall>t\<in>set post. quiet t"
  shows "\<exists>st. run cfg (initial fs) (pre @ (t0 # w) @ post) = Inr st \<and> \<not> recording st \<and>
           persisted (trace st) = [frames_of (t0 # w)]"
proof -
  let ?st0 = "(say [Print DetectedWakeWord] (initial fs))
        \<lparr>recording := True, audio_frames := [], recording_start_time := Some (clock_start t0)\<rparr>"
  have idle: "\<not> recording (initial fs)" by (simp add: initial_def)
  have a: "run cfg (initial fs) pre = Inr (initial fs)"
    using pre idle by (rule run_quiet_idle)
  have "\<exists>st' evs. run cfg ?st0 (t0 # w) = Inr st' \<and> \<not> recording st' \<and> audio_frames st' = [] \<and>
           trace st' = trace ?st0 @ evs \<and> persisted evs = [audio_frames ?st0 @ frames_of (t0 # w)] \<and>
           Print NoAudioRecorded \<notin> set evs"
    by (rule run_window [OF _ _ del early final]) simp_all
  then obtain st' evs where w: "run cfg ?st0 (t0 # w) = Inr st'" "\<not> recording st'"
    "trace st' = trace ?st0 @ evs" "persisted evs = [frames_of (t0 # w)]"
    by auto
  have b: "run cfg (initial fs) (t0 # w) = Inr st'"
    using w(1) step_trigger [OF idle trig, of cfg] by simp
  have c: "run cfg st' post = Inr st'"
    using post w(2) by (rule run_quiet_idle)
  have "persisted (trace st') = [frames_of (t0 # w)]"
    using w(3,4) by (simp add: persisted_append initial_def)
  moreover have "run cfg (initial fs) (pre @ (t0 # w) @ post) = Inr st'"
    by (simp only: run_append a b c sum.case)
  ultimately show ?thesis using w(2) by blast
qed

theorem single_trigger_buffer_witness:
  "\<exists>st. run cfg0 (initial Map.empty)
          [tick_at 0 (- 1) [1] (calm ts0), tick_at 1 0 [2, 3] (calm ts0), tick_at 2 0 [4] (calm ts0),
           tick_at 16 (- 1) [5] (calm ts0), tick_at 17 (- 1) [6] (calm ts0)] = Inr st \<and>
        \<not> recording st \<and> persisted (trace st) = [[[2, 3], [4], [5]]]"
  using single_trigger_buffer [of "[tick_at 0 (- 1) [1] (calm ts0)]" "tick_at 1 0 [2, 3] (calm ts0)"
      "[tick_at 2 0 [4] (calm ts0), tick_at 16 (- 1) [5] (calm ts0)]" cfg0
      "[tick_at 17 (- 1) [6] (calm ts0)]" Map.empty]
  by (simp add: quiet_def delivers_def duration_reached_def tick_at_def cfg0_def frames_of_Cons frames_of_Nil)

text \<open>
  Claim C2. When the detector never returns the index 0, the loop stays as it was entered
  after any number of iterations: it is idle, it has printed nothing but the line before the
  loop, so no buffer was handed to the writer and nothing was sent, and the storage is untouched.
\<close>

theorem no_trigger_stays_idle:
  assumes "\<forall>t\<in>set ticks. quiet t"
  shows "run cfg (initial fs) (take n ticks) = Inr (initial fs) \<and> \<not> recording (initial fs) \<and>
         trace (initial fs) = [Print ListeningForWakeWord] \<and> files (initial fs) = fs"
proof -
  have "\<forall>t\<in>set (take n ticks). quiet t" using assms by (meson in_set_takeD)
  moreover have "\<not> recording (initial fs)" by (simp add: initial_def)
  ultimately have "run cfg (initial fs) (take n ticks) = Inr (initial fs)" by (rule run_quiet_idle)
  then show ?thesis by (simp add: initial_def)
qed

theorem no_trigger_stays_idle_witness:
  "quiet (tick_at 0 (- 1) [1, 2] (calm ts0)) \<and> quiet (tick_at 1 1 [3] (calm ts0)) \<and>
   run cfg0 (initial Map.empty) [tick_at 0 (- 1) [1, 2] (calm ts0), tick_at 1 1 [3] (calm ts0)] =
     Inr (initial Map.empty)"
  using no_trigger_stays_idle [of "[tick_at 0 (- 1) [1, 2] (calm ts0), tick_at 1 1 [3] (calm ts0)]"
      cfg0 Map.empty 2]
  by (simp add: quiet_def tick_at_def)

text \<open>
  Claim C3. While a window is being recorded, a frame that carries a match and the same
  frame carrying any other detector result lead to the same run: the same buffer, the same
  start time, the same end of the window and the same effects.
\<close>

theorem retrigger_ignored:
  assumes "recording st"
  shows "run cfg st (t\<lparr>keyword := Some 0\<rparr> # ts) = run cfg st (t\<lparr>keyword := Some k\<rparr> # ts)"
proof -
  have "step cfg (t\<lparr>keyword := Some 0\<rparr>) st = step cfg (t\<lparr>keyword := Some k\<rparr>) st"
    using assms by (simp add: step_def Let_def split: option.split)
  then show ?thesis by simp
qed

theorem retrigger_ignored_witness:
  "recording rec0 \<and>
   run cfg0 rec0 [(tick_at 3 5 [2] (calm ts0))\<lparr>keyword := Some 0\<rparr>] =
   run cfg0 rec0 [(tick_at 3 5 [2] (calm ts0))\<lparr>keyword := Some (- 1)\<rparr>]"
  using retrigger_ignored [of rec0 cfg0 "tick_at 3 5 [2] (calm ts0)" "[]" "- 1"]
  by (simp add: rec0_def)

text \<open>
  Claim C4. In the iteration in which the duration is reached, whether the window was open
  before or is opened by this very frame, the buffer holds at least the frame just read, the
  branch that prints "No audio recorded to save." is not taken, exactly that buffer is handed
  to the WAV writer, and afterwards the loop is idle with an empty buffer.
\<close>

theorem duration_reached_buffer_nonempty:
  assumes "pcm_read t = Some f" and "keyword t = Some k"
    and "recording st \<and> recording_start_time st = Some s \<or>
         \<not> recording st \<and> k = 0 \<and> s = clock_start t"
    and "duration_reached cfg s t"
  shows "\<exists>st' evs. step cfg t st = Inr st' \<and> \<not> recording st' \<and> audio_frames st' = [] \<and>
           trace st' = trace st @ evs \<and>
           persisted evs = [(if recording st then audio_frames st else []) @ [f]] \<and>
           (if recording st then audio_frames st else []) @ [f] \<noteq> [] \<and>
           Print NoAudioRecorded \<notin> set evs"
proof (cases "recording st")
  case True
  with assms(3) have s: "recording_start_time st = Some s" by simp
  from step_recording_last [OF True s assms(1,2,4)] True show ?thesis by auto
next
  case False
  with assms(3) have k: "keyword t = Some 0" and s: "s = clock_start t"
    using assms(2) by simp_all
  let ?st0 = "(say [Print DetectedWakeWord] st)
        \<lparr>recording := True, audio_frames := [], recording_start_time := Some (clock_start t)\<rparr>"
  have "\<exists>st' evs. step cfg t ?st0 = Inr st' \<and> \<not> recording st' \<and> audio_frames st' = [] \<and>
           files st' = files (save_and_send cfg (world t)
              (?st0\<lparr>audio_frames := audio_frames ?st0 @ [f], recording := False, recording_start_time := None\<rparr>)) \<and>
           trace st' = trace ?st0 @ evs \<and> persisted evs = [audio_frames ?st0 @ [f]] \<and>
           Print NoAudioRecorded \<notin> set evs"
    by (rule step_recording_last [OF _ _ assms(1) k]) (use assms(4) s in simp_all)
  then obtain st' evs where *: "step cfg t ?st0 = Inr st'" "\<not> recording st'" "audio_frames st' = []"
    "trace st' = trace st @ Print DetectedWakeWord # evs" "persisted evs = [[f]]"
    "Print NoAudioRecorded \<notin> set evs"
    by auto
  have "step cfg t st = Inr st'" using * step_trigger [OF False k, of cfg] by simp
  moreover have "persisted (Print DetectedWakeWord # evs) = [[f]]" using * by simp
  moreover have "Print NoAudioRecorded \<notin> set (Print DetectedWakeWord # evs)" using * by simp
  ultimately show ?thesis using False * by (intro exI [of _ st'] exI [of _ "Print DetectedWakeWord # evs"]) simp
qed

theorem duration_reached_buffer_nonempty_witness:
  "\<exists>st' evs. step cfg0 (tick_at 15 (- 1) [2] (calm ts0)) rec0 = Inr st' \<and> \<not> recording st' \<and>
      audio_frames st' = [] \<and> trace st' = trace rec0 @ evs \<and> persisted evs = [[[1], [2]]] \<and>
      Print NoAudioRecorded \<notin> set evs"
  using duration_reached_buffer_nonempty [of "tick_at 15 (- 1) [2] (calm ts0)" "[2]" "- 1" rec0 0 cfg0]
  by (simp add: tick_at_def rec0_def duration_reached_def cfg0_def)

text \<open>
  Claim C10. In a state the loop can reach and in which it is idle, a frame whose detector
  result is any index other than 0 changes nothing: the loop stays idle and the buffer is empty.
\<close>

theorem idle_other_index_ignored:
  assumes "run cfg (initial fs) ticks = Inr st" and "\<not> recording st"
    and "pcm_read t = Some f" and "keyword t = Some k" and "k \<noteq> 0"
  shows "step cfg t st = Inr st \<and> audio_frames st = []"
proof -
  have "consistent st"
    using initial_consistent assms(1) by (rule run_consistent)
  then have "audio_frames st = []" using assms(2) by (simp add: consistent_def)
  moreover have "quiet t" using assms(3-5) by (simp add: quiet_def)
  ultimately show ?thesis using assms(2) by (simp add: step_quiet_idle)
qed

theorem idle_other_index_ignored_witness:
  "run cfg0 (initial Map.empty) [tick_at 0 (- 1) [1] (calm ts0)] = Inr (initial Map.empty) \<and>
   step cfg0 (tick_at 1 1 [7] (calm ts0)) (initial Map.empty) = Inr (initial Map.empty) \<and>
   audio_frames (initial Map.empty) = []"
proof -
  have r: "run cfg0 (initial Map.empty) [tick_at 0 (- 1) [1] (calm ts0)] = Inr (initial Map.empty)"
    by (simp add: step_def tick_at_def initial_def)
  have i: "\<not> recording (initial Map.empty)" by (simp add: initial_def)
  show ?thesis
    using r idle_other_index_ignored [OF r i, of "tick_at 1 1 [7] (calm ts0)" "[7]" 1]
    by (simp add: tick_at_def)
qed

section \<open>Failures of a session\<close>

lemma step_recording_contained:
  assumes "recording st" "recording_start_time st = Some s" "pcm_read t = Some f"
    "keyword t = Some k"
  shows "\<exists>st' evs. step cfg t st = Inr st' \<and> trace st' = trace st @ evs \<and> contained cfg t st st' evs"
proof (cases "duration_reached cfg s t")
  case False
  then have "step cfg t st = Inr (st\<lparr>audio_frames := audio_frames st @ [f]\<rparr>)"
    using step_recording [OF assms] by simp
  then show ?thesis by (simp add: contained_def)
next
  case True
  let ?st3 = "(say [Print DurationReached] (st\<lparr>audio_frames := audio_frames st @ [f]\<rparr>))
               \<lparr>recording := False, recording_start_time := None\<rparr>"
  let ?st' = "say [Print ListeningForWakeWord] (save_and_send cfg (world t) ?st3)"
  obtain sevs where sevs: "trace (save_and_send cfg (world t) ?st3) = trace ?st3 @ sevs"
    "persisted sevs = [audio_frames ?st3]"
    using save_and_send_trace by blast
  let ?evs = "Print DurationReached # sevs @ [Print ListeningForWakeWord]"
  have st': "step cfg t st = Inr ?st'"
    using True step_recording [OF assms] by simp
  have tr: "trace ?st' = trace st @ ?evs" using sevs(1) by simp
  have "contained cfg t st ?st' ?evs"
    unfolding contained_def
  proof (intro allI impI, elim conjE)
    fix buf
    assume "persisted ?evs = [buf]"
    then have buf: "buf = audio_frames ?st3" using sevs(2) by (simp add: persisted_append)
    assume "\<not> fst (write_wave (world t) (temp_filename cfg (world t)) (sample_rate cfg) buf (files st))"
    then have "\<not> fst (write_wave (world t) (temp_filename cfg (world t)) (sample_rate cfg)
                  (audio_frames ?st3) (files ?st3))"
      using buf by simp
    from save_and_send_write_fails [OF this] sevs(1)
    have "sevs = [WaveWrite (temp_filename cfg (world t)) (sample_rate cfg) (audio_frames ?st3),
                 Print ErrorSavingOrSending]"
      by simp
    then show "\<not> recording ?st' \<and> audio_frames ?st' = [] \<and> (\<forall>e\<in>set ?evs. \<not> is_delivery e)"
      by simp
  qed
  with st' tr show ?thesis by blast
qed

text \<open>
  Claim C6. As long as the recorder and the detector return, the loop goes on to the next
  iteration, whatever happens to the sessions on the way: every failure of saving or sending is
  caught. When the iteration completes a session whose WAV file cannot be written, it has no
  delivery event (the attachment is not opened, the relay is not called) and leaves the loop
  idle with an empty buffer.
\<close>

theorem failures_contained:
  assumes "\<forall>t\<in>set (ticks @ [t]). delivers t"
  shows "\<exists>st st' evs. run cfg (initial fs) ticks = Inr st \<and> step cfg t st = Inr st' \<and>
           trace st' = trace st @ evs \<and>
           (\<forall>buf. persisted evs = [buf] \<and>
              \<not> fst (write_wave (world t) (temp_filename cfg (world t)) (sample_rate cfg) buf
                     (files st)) \<longrightarrow>
              \<not> recording st' \<and> audio_frames st' = [] \<and> (\<forall>e\<in>set evs. \<not> is_delivery e))"
proof -
  from assms have "\<forall>t\<in>set ticks. delivers t" and t: "delivers t" by simp_all
  with initial_consistent obtain st where
    st: "run cfg (initial fs) ticks = Inr st" "consistent st"
    using run_continues by blast
  from t obtain f k where fk: "pcm_read t = Some f" "keyword t = Some k"
    by (auto simp: delivers_def)
  have "\<exists>st' evs. step cfg t st = Inr st' \<and> trace st' = trace st @ evs \<and> contained cfg t st st' evs"
  proof (cases "recording st")
    case True
    with st(2) obtain s where "recording_start_time st = Some s"
      by (auto simp: consistent_def)
    from step_recording_contained [OF True this fk] show ?thesis .
  next
    case idle: False
    show ?thesis
    proof (cases "k = 0")
      case False
      then have "quiet t" using fk by (simp add: quiet_def)
      then have "step cfg t st = Inr st" using idle by (rule step_quiet_idle)
      then show ?thesis by (simp add: contained_def)
    next
      case True
      let ?st0 = "(say [Print DetectedWakeWord] st)
        \<lparr>recording := True, audio_frames := [], recording_start_time := Some (clock_start t)\<rparr>"
      have k: "keyword t = Some 0" using fk True by simp
      have "\<exists>st' evs. step cfg t ?st0 = Inr st' \<and> trace st' = trace ?st0 @ evs \<and>
                contained cfg t ?st0 st' evs"
        by (rule step_recording_contained [OF _ _ fk(1) k]) simp_all
      then obtain st' evs where *: "step cfg t ?st0 = Inr st'" "trace st' = trace ?st0 @ evs"
        "contained cfg t ?st0 st' evs"
        by blast
      have "step cfg t st = Inr st'" using * step_trigger [OF idle k, of cfg] by simp
      moreover have "trace st' = trace st @ Print DetectedWakeWord # evs" using * by simp
      moreover have "contained cfg t st st' (Print DetectedWakeWord # evs)"
        using *(3) by (simp add: contained_def)
      ultimately show ?thesis by blast
    qed
  qed
  with st(1) show ?thesis unfolding contained_def by blast
qed

section \<open>Delivery\<close>

text \<open>
  Claim C7. When the attachment cannot be read, because the file is missing or because
  reading it raises, \<^verbatim>\<open>send_audio_email\<close> returns \<^verbatim>\<open>False\<close> after printing the
  attachment error, and none of its effects is a call to the relay.
\<close>

theorem unreadable_attachment_no_network:
  assumes "fs p = None \<or> read_fails w"
  shows "send_audio_email w fs p =
           (False, [OpenRead p, Print (if fs p = None then AttachmentNotFound p else ErrorAttaching)]) \<and>
         (\<forall>e\<in>set (snd (send_audio_email w fs p)). \<not> is_network e)"
  using assms by (auto simp: send_audio_email_def split: option.splits)

theorem unreadable_attachment_no_network_witness:
  "send_audio_email (calm ts0) Map.empty ''gone.wav'' =
     (False, [OpenRead ''gone.wav'', Print (AttachmentNotFound ''gone.wav'')]) \<and>
   list_all (\<lambda>e. \<not> is_network e) (snd (send_audio_email (calm ts0) Map.empty ''gone.wav''))"
  using unreadable_attachment_no_network [of Map.empty "''gone.wav''" "calm ts0"]
  by (simp add: list_all_iff)

section \<open>Retention, and the file a session writes\<close>

lemma path_join_inject: "path_join d a = path_join d b \<longleftrightarrow> a = b"
  by (simp add: path_join_def)

lemma temp_filename_inject:
  "temp_filename cfg w = temp_filename cfg w' \<longleftrightarrow> timestamp w = timestamp w'"
  by (simp add: temp_filename_def path_join_inject)


lemma temp0: "temp_filename cfg0 (offline ts0) = p0" "temp_filename cfg0 (calm ts0) = p0"
  by (simp_all add: temp_filename_def path_join_def cfg0_def offline_def calm_def ts0_def p0_def)

lemma temp1: "temp_filename cfg0 (readonly ts0) = p0"
  by (simp add: temp_filename_def path_join_def cfg0_def readonly_def calm_def ts0_def p0_def)

lemma rate0: "sample_rate cfg0 = 16000"
  by (simp add: cfg0_def)

lemma join12: "join_frames [[1], [2]] = Some [1, 0, 2, 0]"
  by (simp add: pack_h_def)

lemma join34: "join_frames [[3], [4]] = Some [3, 0, 4, 0]"
  by (simp add: pack_h_def)

lemma bytes12: "wave_bytes 1 2 16000 [1, 0, 2, 0] = Some wav12"
  by (simp add: wave_bytes_def pack_L_def pack_H_def ascii_def wav12_def)

lemma bytes34: "wave_bytes 1 2 16000 [3, 0, 4, 0] = Some wav34"
  by (simp add: wave_bytes_def pack_L_def pack_H_def ascii_def wav34_def)

lemma write12: "write_wave (offline ts0) p0 16000 [[1], [2]] fs = (True, fs(p0 \<mapsto> wav12))"
  by (simp add: write_wave_def join12 bytes12 offline_def calm_def del: join_frames.simps)

lemma write34: "write_wave (offline ts0) p0 16000 [[3], [4]] fs = (True, fs(p0 \<mapsto> wav34))"
  by (simp add: write_wave_def join34 bytes34 offline_def calm_def del: join_frames.simps)

lemma write12_calm: "write_wave (calm ts0) p0 16000 [[1], [2]] fs = (True, fs(p0 \<mapsto> wav12))"
  by (simp add: write_wave_def join12 bytes12 calm_def del: join_frames.simps)

lemma send_offline: "fs p = Some x \<Longrightarrow> fst (send_audio_email (offline ts0) fs p) = False"
  by (simp add: send_audio_email_def offline_def calm_def)

lemma send_calm: "fs p = Some x \<Longrightarrow> fst (send_audio_email (calm ts0) fs p) = True"
  by (simp add: send_audio_email_def calm_def)

lemma session12:
  "audio_frames st = [[1], [2]] \<Longrightarrow>
   files (save_and_send cfg0 (offline ts0) st) = (files st)(p0 \<mapsto> wav12)"
  using save_and_send_files(1) [of "offline ts0" cfg0 st "(files st)(p0 \<mapsto> wav12)"]
  by (simp add: temp0 write12 send_offline rate0)

lemma session34:
  "audio_frames st = [[3], [4]] \<Longrightarrow>
   files (save_and_send cfg0 (offline ts0) st) = (files st)(p0 \<mapsto> wav34)"
  using save_and_send_files(1) [of "offline ts0" cfg0 st "(files st)(p0 \<mapsto> wav34)"]
  by (simp add: temp0 write34 send_offline rate0)

lemma window_files:
  assumes "\<not> recording st"
  shows "\<exists>st'. run cfg0 st [tick_at a 0 f (offline ts0), tick_at (a + 15) (- 1) g (offline ts0)] = Inr st' \<and>
          \<not> recording st' \<and>
          files st' = files (save_and_send cfg0 (offline ts0)
             (st\<lparr>audio_frames := [f, g], recording := False, recording_start_time := None,
                 trace := trace st @ [Print DetectedWakeWord, Print DurationReached]\<rparr>))"
  using assms
  by (simp add: step_def tick_at_def cfg0_def Let_def say_def save_and_send_def split: prod.split bool.split option.split)


lemma write12_stuck: "write_wave (stuck ts0) p0 16000 [[1], [2]] fs = (True, fs(p0 \<mapsto> wav12))"
  by (simp add: write_wave_def join12 bytes12 stuck_def calm_def del: join_frames.simps)

lemma temp2: "temp_filename cfg0 (stuck ts0) = p0"
  by (simp add: temp_filename_def path_join_def cfg0_def stuck_def calm_def ts0_def p0_def)

lemma send_stuck: "fs p = Some x \<Longrightarrow> fst (send_audio_email (stuck ts0) fs p) = True"
  by (simp add: send_audio_email_def stuck_def calm_def)

lemma world_flags:
  "remove_fails (calm ts) = False" "remove_fails (offline ts) = False"
  "remove_fails (stuck ts) = True"
  by (simp_all add: calm_def offline_def stuck_def)

text \<open>
  Claim C5, as stated, fails. The file is written, the mail goes out and
  \<^verbatim>\<open>send_audio_email\<close> returns \<^verbatim>\<open>True\<close>; \<^verbatim>\<open>os.remove\<close> raises, line 160
  catches the exception, and the file is still on the storage afterwards.
\<close>

theorem failed_removal_keeps_artifact:
  "write_wave (stuck ts0) (temp_filename cfg0 (stuck ts0)) (sample_rate cfg0) (audio_frames st12)
      (files st12) = (True, [p0 \<mapsto> wav12]) \<and>
   fst (send_audio_email (stuck ts0) [p0 \<mapsto> wav12] (temp_filename cfg0 (stuck ts0))) = True \<and>
   files (save_and_send cfg0 (stuck ts0) st12) (temp_filename cfg0 (stuck ts0)) = Some wav12"
proof -
  have w: "write_wave (stuck ts0) (temp_filename cfg0 (stuck ts0)) (sample_rate cfg0)
      (audio_frames st12) (files st12) = (True, [p0 \<mapsto> wav12])"
    by (simp add: temp2 rate0 st12_def initial_def write12_stuck)
  from save_and_send_files(1) [OF w] w show ?thesis
    by (simp add: temp2 send_stuck world_flags)
qed

text \<open>
  Claim C5, amended. For a session whose WAV file was written: when
  \<^verbatim>\<open>send_audio_email\<close> returns \<^verbatim>\<open>True\<close>, \<^verbatim>\<open>os.remove\<close> is called on the file, and
  the file is gone from the storage afterwards when that call does not raise; when the
  removal raises, the storage is as the writer left it. When \<^verbatim>\<open>send_audio_email\<close>
  returns \<^verbatim>\<open>False\<close>, \<^verbatim>\<open>os.remove\<close> is not called and the storage is exactly as the
  writer left it, with the file in it.
\<close>

theorem retention_by_outcome:
  assumes "write_wave w (temp_filename cfg w) (sample_rate cfg) (audio_frames st) (files st) = (True, fs1)"
  shows "files (save_and_send cfg w st) =
           (if fst (send_audio_email w fs1 (temp_filename cfg w)) \<and> \<not> remove_fails w
            then fs1((temp_filename cfg w) := None) else fs1) \<and>
         fs1 (temp_filename cfg w) \<noteq> None \<and>
         (\<exists>evs. trace (save_and_send cfg w st) = trace st @ evs \<and>
            (Remove (temp_filename cfg w) \<in> set evs) =
              fst (send_audio_email w fs1 (temp_filename cfg w)))"
proof -
  obtain sent sevs where s: "send_audio_email w fs1 (temp_filename cfg w) = (sent, sevs)"
    by (cases "send_audio_email w fs1 (temp_filename cfg w)")
  have n: "Remove (temp_filename cfg w) \<notin> set sevs"
    using s by (rule send_no_remove)
  have ex: "fs1 (temp_filename cfg w) \<noteq> None"
    by (rule save_and_send_files(2) [OF assms])
  have "\<exists>evs. trace (save_and_send cfg w st) = trace st @ evs \<and>
            (Remove (temp_filename cfg w) \<in> set evs) = sent"
    using assms s n ex by (cases sent) (auto simp: save_and_send_def Let_def)
  then show ?thesis using save_and_send_files [OF assms] s by simp
qed

theorem retention_by_outcome_witness:
  "write_wave (calm ts0) (temp_filename cfg0 (calm ts0)) (sample_rate cfg0) (audio_frames st12)
      (files st12) = (True, [p0 \<mapsto> wav12]) \<and>
   fst (send_audio_email (calm ts0) [p0 \<mapsto> wav12] p0) = True \<and>
   files (save_and_send cfg0 (calm ts0) st12) = Map.empty \<and>
   write_wave (offline ts0) (temp_filename cfg0 (offline ts0)) (sample_rate cfg0) (audio_frames st12)
      (files st12) = (True, [p0 \<mapsto> wav12]) \<and>
   fst (send_audio_email (offline ts0) [p0 \<mapsto> wav12] p0) = False \<and>
   files (save_and_send cfg0 (offline ts0) st12) = [p0 \<mapsto> wav12]"
proof -
  have c: "write_wave (calm ts0) (temp_filename cfg0 (calm ts0)) (sample_rate cfg0)
      (audio_frames st12) (files st12) = (True, [p0 \<mapsto> wav12])"
    by (simp add: temp0 rate0 st12_def initial_def write12_calm)
  have w: "write_wave (offline ts0) (temp_filename cfg0 (offline ts0)) (sample_rate cfg0)
      (audio_frames st12) (files st12) = (True, [p0 \<mapsto> wav12])"
    by (simp add: temp0 rate0 st12_def initial_def write12)
  from retention_by_outcome [OF c] retention_by_outcome [OF w] c w show ?thesis
    by (simp add: temp0 send_offline send_calm world_flags)
qed

theorem failures_contained_witness:
  "delivers (tick_at 0 0 [1] (readonly ts0)) \<and> delivers (tick_at 15 (- 1) [2] (readonly ts0)) \<and>
   \<not> fst (write_wave (readonly ts0) p0 16000 [[1], [2]] Map.empty) \<and>
   (\<exists>st st'. run cfg0 (initial Map.empty) [tick_at 0 0 [1] (readonly ts0)] = Inr st \<and>
      step cfg0 (tick_at 15 (- 1) [2] (readonly ts0)) st = Inr st' \<and>
      \<not> recording st' \<and> audio_frames st' = [] \<and>
      persisted (trace st') = [[[1], [2]]] \<and> list_all (\<lambda>e. \<not> is_delivery e) (trace st'))"
proof -
  let ?t1 = "tick_at 0 0 [1] (readonly ts0)" and ?t2 = "tick_at 15 (- 1) [2] (readonly ts0)"
  have d: "delivers ?t1" "delivers ?t2" by (simp_all add: delivers_def tick_at_def)
  have f: "\<not> fst (write_wave (readonly ts0) p0 16000 [[1], [2]] Map.empty)"
    by (simp add: write_wave_def readonly_def calm_def)
  from d have "\<forall>t\<in>set ([?t1] @ [?t2]). delivers t" by simp
  from failures_contained [OF this, of cfg0 Map.empty] obtain st st' evs where
    r: "run cfg0 (initial Map.empty) [?t1] = Inr st" and s: "step cfg0 ?t2 st = Inr st'"
    and tr: "trace st' = trace st @ evs"
    and c: "\<forall>buf. persisted evs = [buf] \<and>
              \<not> fst (write_wave (world ?t2) (temp_filename cfg0 (world ?t2)) (sample_rate cfg0) buf
                     (files st)) \<longrightarrow>
              \<not> recording st' \<and> audio_frames st' = [] \<and> (\<forall>e\<in>set evs. \<not> is_delivery e)"
    by blast
  have st: "st = (initial Map.empty)\<lparr>recording := True, audio_frames := [[1]],
      recording_start_time := Some 0,
      trace := [Print ListeningForWakeWord, Print DetectedWakeWord]\<rparr>"
    using r by (simp add: step_def tick_at_def cfg0_def initial_def say_def Let_def)
  have "persisted (trace st') = persisted (trace st) @ [audio_frames st @ [[2]]]"
    using step_recording_last [of st 0 ?t2 "[2]" "- 1" cfg0] s
    by (auto simp: st tick_at_def duration_reached_def cfg0_def persisted_append)
  then have p: "persisted evs = [[[1], [2]]]" using tr by (simp add: st persisted_append)
  have "files st = Map.empty" by (simp add: st initial_def)
  with c p f have "\<not> recording st' \<and> audio_frames st' = [] \<and> (\<forall>e\<in>set evs. \<not> is_delivery e)"
    by (simp add: tick_at_def temp1 rate0)
  then show ?thesis using d f r s tr p
    by (auto simp: list_all_iff st persisted_append intro!: exI [of _ st])
qed

text \<open>
  Claim C8, as stated, fails, in two ways. Two sessions that end at the same local time, to
  the second, write the same path: with the default configuration, a session that ends at
  01:30:00 before the clocks are set back and one that ends at 01:30:00 after, the relay
  unreachable both times. The second write creates no file and replaces the recording of the
  first. And a call that cannot open its file creates no file at all.
\<close>

theorem same_second_overwrites:
  "(\<exists>st1 st2. run cfg0 (initial Map.empty)
             [tick_at 0 0 [1] (offline ts0), tick_at 15 (- 1) [2] (offline ts0)] = Inr st1 \<and>
           run cfg0 st1
             [tick_at 3600 0 [3] (offline ts0), tick_at 3615 (- 1) [4] (offline ts0)] = Inr st2 \<and>
           files st1 p0 = Some wav12 \<and> files st2 p0 = Some wav34 \<and> wav12 \<noteq> wav34 \<and>
           dom (files st1) = {p0} \<and> dom (files st2) = {p0}) \<and>
   write_wave (readonly ts0) (temp_filename cfg0 (readonly ts0)) (sample_rate cfg0) [[1], [2]]
     Map.empty = (False, Map.empty)"
proof -
  have i: "\<not> recording (initial Map.empty)" by (simp add: initial_def)
  from window_files [OF i, of 0 "[1]" "[2]"] obtain st1 where
    st1: "run cfg0 (initial Map.empty)
             [tick_at 0 0 [1] (offline ts0), tick_at 15 (- 1) [2] (offline ts0)] = Inr st1"
      "\<not> recording st1" "files st1 = Map.empty(p0 \<mapsto> wav12)"
    by (auto simp: session12 initial_def)
  from window_files [OF st1(2), of 3600 "[3]" "[4]"] obtain st2 where
    st2: "run cfg0 st1
             [tick_at 3600 0 [3] (offline ts0), tick_at 3615 (- 1) [4] (offline ts0)] = Inr st2"
      "files st2 = (files st1)(p0 \<mapsto> wav34)"
    by (auto simp: session34)
  have "wav12 \<noteq> wav34" by (simp add: wav12_def wav34_def)
  with st1 st2 have "\<exists>st1 st2. run cfg0 (initial Map.empty)
             [tick_at 0 0 [1] (offline ts0), tick_at 15 (- 1) [2] (offline ts0)] = Inr st1 \<and>
           run cfg0 st1
             [tick_at 3600 0 [3] (offline ts0), tick_at 3615 (- 1) [4] (offline ts0)] = Inr st2 \<and>
           files st1 p0 = Some wav12 \<and> files st2 p0 = Some wav34 \<and> wav12 \<noteq> wav34 \<and>
           dom (files st1) = {p0} \<and> dom (files st2) = {p0}"
    by (intro exI [of _ st1] exI [of _ st2]) simp
  moreover have "write_wave (readonly ts0) (temp_filename cfg0 (readonly ts0)) (sample_rate cfg0)
     [[1], [2]] Map.empty = (False, Map.empty)"
    by (simp add: write_wave_def readonly_def calm_def)
  ultimately show ?thesis by blast
qed

text \<open>
  Claim C8, amended. Every call of the writer, whether it succeeds or not, changes no file
  but the one at the path made from the timestamp. A call that succeeds leaves the WAV file of
  its frames at that path, whatever was there: when no file of that name was on the storage
  it is the one new file, and when a file of that name was there, the call creates no file
  and the old contents are replaced. A call that fails leaves the storage untouched when the
  file cannot be opened, and otherwise leaves at its path what had reached the file. Sessions
  whose timestamps differ write different paths.
\<close>

theorem write_creates_or_overwrites:
  assumes "write_wave w (temp_filename cfg w) rate frames fs = (ok, fs')"
  shows "(\<forall>q. q \<noteq> temp_filename cfg w \<longrightarrow> fs' q = fs q) \<and>
         (if ok
          then \<exists>data bs. join_frames frames = Some data \<and> wave_bytes 1 2 rate data = Some bs \<and>
                 fs' = fs(temp_filename cfg w \<mapsto> bs) \<and>
                 (if fs (temp_filename cfg w) = None
                  then dom fs' - dom fs = {temp_filename cfg w}
                  else dom fs' = dom fs)
          else if open_fails w then fs' = fs
          else fs' = fs(temp_filename cfg w \<mapsto> leftover w)) \<and>
         (\<forall>w'. timestamp w' \<noteq> timestamp w \<longrightarrow> temp_filename cfg w' \<noteq> temp_filename cfg w)"
proof (intro conjI)
  show "\<forall>q. q \<noteq> temp_filename cfg w \<longrightarrow> fs' q = fs q"
    using assms by (auto simp: write_wave_def split: if_splits option.splits)
  show "\<forall>w'. timestamp w' \<noteq> timestamp w \<longrightarrow> temp_filename cfg w' \<noteq> temp_filename cfg w"
    by (simp add: temp_filename_inject)
  show "if ok
          then \<exists>data bs. join_frames frames = Some data \<and> wave_bytes 1 2 rate data = Some bs \<and>
                 fs' = fs(temp_filename cfg w \<mapsto> bs) \<and>
                 (if fs (temp_filename cfg w) = None
                  then dom fs' - dom fs = {temp_filename cfg w}
                  else dom fs' = dom fs)
          else if open_fails w then fs' = fs
          else fs' = fs(temp_filename cfg w \<mapsto> leftover w)"
  proof (cases ok)
    case True
    with assms obtain data bs where "join_frames frames = Some data"
      "wave_bytes 1 2 rate data = Some bs" "fs' = fs(temp_filename cfg w \<mapsto> bs)"
      by (auto simp: write_wave_def split: if_splits option.splits)
    then show ?thesis using True by auto
  next
    case False
    with assms show ?thesis
      by (auto simp: write_wave_def split: if_splits option.splits)
  qed
qed

theorem write_creates_or_overwrites_witness:
  "write_wave (calm ts0) (temp_filename cfg0 (calm ts0)) 16000 [[1], [2]] Map.empty =
     (True, [p0 \<mapsto> wav12]) \<and>
   dom [p0 \<mapsto> wav12] - dom (Map.empty :: storage) = {p0} \<and>
   write_wave (calm ts0) (temp_filename cfg0 (calm ts0)) 16000 [[1], [2]] [p0 \<mapsto> wav34] =
     (True, [p0 \<mapsto> wav12]) \<and>
   dom [p0 \<mapsto> wav12] = dom [p0 \<mapsto> wav34] \<and>
   temp_filename cfg0 (calm ts0) = p0 \<and> join_frames [[1], [2]] = Some [1, 0, 2, 0] \<and>
   wave_bytes 1 2 16000 [1, 0, 2, 0] = Some wav12"
proof -
  have a: "write_wave (calm ts0) (temp_filename cfg0 (calm ts0)) 16000 [[1], [2]] Map.empty =
     (True, [p0 \<mapsto> wav12])"
    by (simp add: temp0 write12_calm)
  have b: "write_wave (calm ts0) (temp_filename cfg0 (calm ts0)) 16000 [[1], [2]] [p0 \<mapsto> wav34] =
     (True, [p0 \<mapsto> wav12])"
    by (simp add: temp0 write12_calm)
  from write_creates_or_overwrites [OF a] write_creates_or_overwrites [OF b] a b show ?thesis
    by (simp add: temp0 join12 bytes12 del: join_frames.simps)
qed

section \<open>Reading a written file back\<close>
















text \<open>When the write succeeds: the storage can be written, every sample fits 16 bits,
  the sample rate is positive and its double fits 32 bits, and so does the length of the file.\<close>

lemma pack_frame_Some:
  "\<forall>x\<in>set f. - 32768 \<le> x \<and> x \<le> 32767 \<Longrightarrow>
   \<exists>b. pack_frame f = Some b \<and> length b = 2 * length f"
  by (induction f) (auto simp: pack_h_def)

lemma join_frames_Some:
  "\<forall>x\<in>set (concat frames). - 32768 \<le> x \<and> x \<le> 32767 \<Longrightarrow>
   \<exists>d. join_frames frames = Some d \<and> length d = 2 * length (concat frames)"
proof (induction frames)
  case Nil
  then show ?case by simp
next
  case (Cons f fs)
  then obtain b where "pack_frame f = Some b" "length b = 2 * length f"
    using pack_frame_Some [of f] by auto
  moreover from Cons obtain d where "join_frames fs = Some d" "length d = 2 * length (concat fs)"
    by auto
  ultimately show ?case by simp
qed

lemma pack_L_Some: "0 \<le> n \<Longrightarrow> n < 4294967296 \<Longrightarrow> pack_L n \<noteq> None"
  by (simp add: pack_L_def)

lemma pack_H_Some: "0 \<le> n \<Longrightarrow> n < 65536 \<Longrightarrow> pack_H n \<noteq> None"
  by (simp add: pack_H_def)

lemma wave_bytes_Some_if:
  assumes "0 < rate" "rate < 2147483648" "2 * int n + 36 < 4294967296" "length data = 2 * n"
  shows "wave_bytes 1 2 rate data \<noteq> None"
proof -
  have len: "int (length data) div 2 * 2 = 2 * int n" using assms(4) by simp
  have "pack_L (36 + 2 * int n) \<noteq> None" using assms(3) by (intro pack_L_Some) simp_all
  moreover have "pack_H 1 \<noteq> None" "pack_H 2 \<noteq> None" "pack_H 16 \<noteq> None"
    by (simp_all add: pack_H_def)
  moreover have "pack_L rate \<noteq> None" using assms(1,2) by (intro pack_L_Some) simp_all
  moreover have "pack_L (rate * 2) \<noteq> None" using assms(1,2) by (intro pack_L_Some) simp_all
  moreover have "pack_L (2 * int n) \<noteq> None" using assms(3) by (intro pack_L_Some) simp_all
  ultimately show ?thesis using assms(1)
    by (auto simp: wave_bytes_def Let_def len)
qed

lemma write_wave_succeeds:
  assumes "\<not> open_fails w" "\<not> write_fails w"
    and "\<forall>x\<in>set (concat frames). - 32768 \<le> x \<and> x \<le> 32767"
    and "0 < rate" "rate < 2147483648"
    and "2 * int (length (concat frames)) + 36 < 4294967296"
  shows "fst (write_wave w path rate frames fs)"
proof -
  from join_frames_Some [OF assms(3)] obtain d where
    d: "join_frames frames = Some d" "length d = 2 * length (concat frames)" by blast
  from wave_bytes_Some_if [OF assms(4,5,6) d(2)] obtain bs where "wave_bytes 1 2 rate d = Some bs"
    by auto
  with d(1) assms(1,2) show ?thesis by (simp add: write_wave_def)
qed



end
